theory Spec2Isabelle
  imports Main "HOL-Library.Sublist"
begin

section \<open>JavaScript values\<close>

text \<open>
  The values that reach \<^verbatim>\<open>pool.query\<close>. Numbers are the integers (line and column
  numbers, parameters); strings are sequences of code units below 256. Plain objects
  live in a store and are passed by reference (\<open>JObj r\<close>); an absent property reads as
  \<open>JUndefined\<close>, as in JavaScript. Objects of the store are data carriers: the
  properties they hold are never callable methods. Arrays carry their elements and
  have no \<^verbatim>\<open>text\<close> property. \<open>JError name\<close> is an instance of \<^verbatim>\<open>Error\<close>; every thrown
  value and every rejection reason is a \<open>jsval\<close>.
\<close>

datatype jsval =
    JUndefined
  | JNull
  | JBool bool
  | JNum int
  | JStr string
  | JFun nat
  | JArr "jsval list"
  | JObj nat
  | JError string

type_synonym heap = "nat \<Rightarrow> string \<Rightarrow> jsval"

abbreviation TypeError :: jsval where
  "TypeError \<equiv> JError ''TypeError''"

fun typeof :: "jsval \<Rightarrow> string" where
  "typeof JUndefined = ''undefined''"
| "typeof JNull = ''object''"
| "typeof (JBool b) = ''boolean''"
| "typeof (JNum n) = ''number''"
| "typeof (JStr s) = ''string''"
| "typeof (JFun f) = ''function''"
| "typeof (JArr xs) = ''object''"
| "typeof (JObj r) = ''object''"
| "typeof (JError e) = ''object''"

fun truthy :: "jsval \<Rightarrow> bool" where
  "truthy JUndefined = False"
| "truthy JNull = False"
| "truthy (JBool b) = b"
| "truthy (JNum n) = (n \<noteq> 0)"
| "truthy (JStr s) = (s \<noteq> [])"
| "truthy (JFun f) = True"
| "truthy (JArr xs) = True"
| "truthy (JObj r) = True"
| "truthy (JError e) = True"

text \<open>The property read \<^verbatim>\<open>v.text\<close>: it throws on \<^verbatim>\<open>null\<close> and \<^verbatim>\<open>undefined\<close>.\<close>

fun get_text :: "heap \<Rightarrow> jsval \<Rightarrow> jsval + jsval" where
  "get_text h JUndefined = Inl TypeError"
| "get_text h JNull = Inl TypeError"
| "get_text h (JObj r) = Inr (h r ''text'')"
| "get_text h v = Inr JUndefined"

text \<open>The assignment \<^verbatim>\<open>v.text = x\<close> on an object of the store.\<close>

fun set_text :: "heap \<Rightarrow> jsval \<Rightarrow> jsval \<Rightarrow> heap" where
  "set_text h (JObj r) x = h(r := (h r)(''text'' := x))"
| "set_text h v x = h"

section \<open>Strings\<close>

definition is_ws :: "char \<Rightarrow> bool" where
  "is_ws c = (c \<in> set [CHR 0x09, CHR 0x0A, CHR 0x0B, CHR 0x0C, CHR 0x0D, CHR '' '', CHR 0xA0])"

definition trim :: "string \<Rightarrow> string" where
  "trim s = rev (dropWhile is_ws (rev (dropWhile is_ws s)))"

definition endsWith :: "string \<Rightarrow> string \<Rightarrow> bool" where
  "endsWith s t = suffix t s"

definition includes_str :: "string \<Rightarrow> string \<Rightarrow> bool" where
  "includes_str s t = sublist t s"

text \<open>\<^verbatim>\<open>s.slice(0, -1)\<close> is \<open>butlast s\<close>. \<^verbatim>\<open>s.replace(/;?$/, '')\<close> removes the leftmost match
  of an optional \<^verbatim>\<open>;\<close> followed by the end of the input: the final \<^verbatim>\<open>;\<close> when there is one
  and the empty match at the end otherwise.\<close>

definition replace_terminator :: "string \<Rightarrow> string" where
  "replace_terminator s = (if endsWith s '';'' then butlast s else s)"

text \<open>Decimal rendering of an integer, as a template literal does.\<close>

fun string_of_nat :: "nat \<Rightarrow> string" where
  "string_of_nat n =
     (if n < 10 then [''0123456789'' ! n]
      else string_of_nat (n div 10) @ [''0123456789'' ! (n mod 10)])"

declare string_of_nat.simps [simp del]

definition string_of_int :: "int \<Rightarrow> string" where
  "string_of_int i = (if i < 0 then ''-'' @ string_of_nat (nat (- i)) else string_of_nat (nat i))"

text \<open>\<^verbatim>\<open>`${n}`\<close> for a number or \<^verbatim>\<open>null\<close>.\<close>

fun template_num :: "int option \<Rightarrow> string" where
  "template_num None = ''null''"
| "template_num (Some n) = string_of_int n"

text \<open>Method calls on the value of the \<^verbatim>\<open>text\<close> property. Strings have both methods;
  arrays have \<^verbatim>\<open>includes\<close> (membership) and no \<^verbatim>\<open>trim\<close>; on every other value the method
  is undefined and the call throws.\<close>

fun method_includes :: "jsval \<Rightarrow> string \<Rightarrow> jsval + bool" where
  "method_includes (JStr s) c = Inr (includes_str s c)"
| "method_includes (JArr xs) c = Inr (JStr c \<in> set xs)"
| "method_includes v c = Inl TypeError"

fun method_trim :: "jsval \<Rightarrow> jsval + string" where
  "method_trim (JStr s) = Inr (trim s)"
| "method_trim v = Inl TypeError"

section \<open>Query Annotator\<close>

text \<open>Lines 110 and 111 of \<^verbatim>\<open>addFileCommentToQuery\<close>: the comment token. The resolved
  position is a string or \<^verbatim>\<open>null\<close>; an empty string is falsy.\<close>

definition comment_of :: "string option \<Rightarrow> string" where
  "comment_of resolvedPosition =
     (let commentContent =
            (case resolvedPosition of
               None \<Rightarrow> ''file=unknown''
             | Some p \<Rightarrow> if p \<noteq> [] then ''file='' @ p else ''file=unknown'')
      in ''/* '' @ commentContent @ '' */'')"

text \<open>Lines 113 to 127: the rewriting of the payload, given the resolved position. The
  result is the thrown value, or the store after the call with the returned pair.\<close>

definition annotate ::
  "string option \<Rightarrow> heap \<Rightarrow> jsval \<Rightarrow> jsval \<Rightarrow> jsval + (heap \<times> jsval \<times> jsval)" where
  "annotate resolvedPosition h text values =
     (let comment = comment_of resolvedPosition in
      case text of
        JStr s \<Rightarrow>
          if endsWith (trim s) '';''
          then Inr (h, JStr (butlast (trim s) @ '' '' @ comment @ '';''), values)
          else Inr (h, JStr (s @ '' '' @ comment), values)
      | _ \<Rightarrow>
          if typeof text = ''object'' then
            (case get_text h text of
               Inl e \<Rightarrow> Inl e
             | Inr t \<Rightarrow>
                 if truthy t then
                   (case method_includes t comment of
                      Inl e \<Rightarrow> Inl e
                    | Inr True \<Rightarrow> Inr (h, text, values)
                    | Inr False \<Rightarrow>
                        (case method_trim t of
                           Inl e \<Rightarrow> Inl e
                         | Inr s \<Rightarrow>
                             Inr (set_text h text
                                    (JStr (replace_terminator s @ '' '' @ comment @ '';'')),
                                  text, values)))
                 else Inr (h, text, values))
          else Inr (h, text, values))"

section \<open>Runtime and process state\<close>

text \<open>
  What \<open>originalPositionFor\<close> of the \<^verbatim>\<open>source-map\<close> package answers: an object with the
  fields below, each possibly \<^verbatim>\<open>null\<close>. A consumer is the parsed map, known here by its
  answers; the function may also answer \<^verbatim>\<open>null\<close>, which the caller guards against.
\<close>

record origpos =
  source :: "string option"
  orig_line :: "int option"
  orig_column :: "int option"

datatype consumer = Consumer (originalPositionFor: "int \<Rightarrow> int \<Rightarrow> origpos option")

text \<open>A V8 call site, and the frame object that \<^verbatim>\<open>getCallerFrame\<close> builds from one.\<close>

record callsite =
  getFileName :: "string option"
  getLineNumber :: "int option"
  getColumnNumber :: "int option"

record frame =
  fileName :: string
  line :: "int option"
  column :: "int option"

text \<open>
  The collaborators outside the module: the file system, the map parser, the engine's
  stack capture (the call sites above \<^verbatim>\<open>getCallerFrame\<close>, innermost first, or the value
  thrown while the error object is built and its stack read), and the pool's own
  \<^verbatim>\<open>query\<close>, whose promise settles with a result or a reason.
\<close>

record runtime =
  existsSync :: "string \<Rightarrow> bool"
  readFileSync :: "string \<Rightarrow> jsval + string"
  new_SourceMapConsumer :: "string \<Rightarrow> jsval + consumer"
  captureStackTrace :: "jsval + callsite list"
  origQuery :: "heap \<Rightarrow> jsval \<Rightarrow> jsval \<Rightarrow> jsval + jsval"

text \<open>\<^verbatim>\<open>Error.prepareStackTrace\<close> holds what the host program put there, or the arrow
  function \<^verbatim>\<open>(_, stack) => stack\<close> that \<^verbatim>\<open>getCallerFrame\<close> installs.\<close>

datatype formatter = Host jsval | RawFrames

text \<open>Calls that leave the module, in the order they happen.\<close>

datatype event =
    ExistsSync string
  | ReadFileSync string
  | ParseMap string
  | OrigQuery "jsval list"
  | Callback jsval "jsval list"
  | UnhandledRejection jsval

text \<open>The mutable state of the process: the module-level \<^verbatim>\<open>sourceMapCache\<close> (a key is
  absent, or holds \<^verbatim>\<open>null\<close> or a consumer), the global formatter, the object store and
  the trace of outside calls.\<close>

record world =
  sourceMapCache :: "string \<rightharpoonup> consumer option"
  prepareStackTrace :: formatter
  store :: heap
  trace :: "event list"

section \<open>Source Map Cache\<close>

definition cache_set :: "world \<Rightarrow> string \<Rightarrow> consumer option \<Rightarrow> world" where
  "cache_set w k v = w\<lparr>sourceMapCache := (sourceMapCache w)(k \<mapsto> v)\<rparr>"

definition emit :: "world \<Rightarrow> event \<Rightarrow> world" where
  "emit w e = w\<lparr>trace := trace w @ [e]\<rparr>"

definition loadSourceMapForFile :: "runtime \<Rightarrow> world \<Rightarrow> string \<Rightarrow> world \<times> consumer option" where
  "loadSourceMapForFile rt w jsFilePath =
     (case sourceMapCache w jsFilePath of
        Some entry \<Rightarrow> (w, entry)
      | None \<Rightarrow>
          (let mapPath = jsFilePath @ ''.map'';
               w1 = emit w (ExistsSync mapPath)
           in if \<not> existsSync rt mapPath then (cache_set w1 jsFilePath None, None)
              else
                (let w2 = emit w1 (ReadFileSync mapPath) in
                 case readFileSync rt mapPath of
                   Inl e \<Rightarrow> (cache_set w2 jsFilePath None, None)
                 | Inr rawMap \<Rightarrow>
                     (let w3 = emit w2 (ParseMap rawMap) in
                      case new_SourceMapConsumer rt rawMap of
                        Inl e \<Rightarrow> (cache_set w3 jsFilePath None, None)
                      | Inr parsedMap \<Rightarrow>
                          (cache_set w3 jsFilePath (Some parsedMap), Some parsedMap)))))"

section \<open>Frame Resolver\<close>

text \<open>The \<^verbatim>\<open>for\<close> loop of \<^verbatim>\<open>getCallerFrame\<close> over the captured call sites.\<close>

fun getCallerFrame_loop :: "callsite list \<Rightarrow> frame option" where
  "getCallerFrame_loop [] = None"
| "getCallerFrame_loop (cs # stack) =
     (case getFileName cs of
        None \<Rightarrow> getCallerFrame_loop stack
      | Some fn \<Rightarrow>
          if fn \<noteq> [] \<and> \<not> includes_str fn ''node_modules''
             \<and> \<not> endsWith fn ''pg-filecommenter-sourcemap.js''
          then Some \<lparr>fileName = fn, line = getLineNumber cs, column = getColumnNumber cs\<rparr>
          else getCallerFrame_loop stack)"

text \<open>The formatter is saved, replaced, and put back after the stack has been read; there
  is no \<^verbatim>\<open>try\<close> around the capture, so a throw there leaves the function at once.\<close>

definition getCallerFrame :: "runtime \<Rightarrow> world \<Rightarrow> world \<times> (jsval + frame option)" where
  "getCallerFrame rt w =
     (let origPrepareStackTrace = prepareStackTrace w;
          w1 = w\<lparr>prepareStackTrace := RawFrames\<rparr>
      in case captureStackTrace rt of
           Inl e \<Rightarrow> (w1, Inl e)
         | Inr stack \<Rightarrow>
             (let w2 = w1\<lparr>prepareStackTrace := origPrepareStackTrace\<rparr>
              in (w2, Inr (getCallerFrame_loop stack))))"

section \<open>Position Translator\<close>

text \<open>\<^verbatim>\<open>path.basename\<close> of Node on POSIX paths: trailing separators are dropped, then
  the part after the last separator is kept.\<close>

definition basename :: "string \<Rightarrow> string" where
  "basename p =
     rev (takeWhile (\<lambda>c. c \<noteq> CHR ''/'') (dropWhile (\<lambda>c. c = CHR ''/'') (rev p)))"

definition compiled_position :: "string \<Rightarrow> int \<Rightarrow> int \<Rightarrow> string" where
  "compiled_position fn l c = basename fn @ '':'' @ string_of_int l @ '':'' @ string_of_int c"

definition resolveOriginalPosition ::
  "runtime \<Rightarrow> world \<Rightarrow> frame option \<Rightarrow> world \<times> string option" where
  "resolveOriginalPosition rt w fr =
     (case fr of
        None \<Rightarrow> (w, None)
      | Some f \<Rightarrow>
          (case (line f, column f) of
             (Some l, Some c) \<Rightarrow>
               if fileName f = [] \<or> l = 0 \<or> c = 0 then (w, None)
               else
                 (case loadSourceMapForFile rt w (fileName f) of
                    (w1, None) \<Rightarrow> (w1, Some (compiled_position (fileName f) l c))
                  | (w1, Some mapConsumer) \<Rightarrow>
                      (case originalPositionFor mapConsumer l c of
                         None \<Rightarrow> (w1, Some (compiled_position (fileName f) l c))
                       | Some originalPos \<Rightarrow>
                           (case source originalPos of
                              None \<Rightarrow> (w1, Some (compiled_position (fileName f) l c))
                            | Some src \<Rightarrow>
                                if src \<noteq> []
                                then (w1, Some (src @ '':'' @ template_num (orig_line originalPos)
                                                 @ '':'' @ template_num (orig_column originalPos)))
                                else (w1, Some (compiled_position (fileName f) l c)))))
           | _ \<Rightarrow> (w, None)))"

section \<open>The annotation pipeline and the Pool Interceptor\<close>

definition addFileCommentToQuery ::
  "runtime \<Rightarrow> world \<Rightarrow> jsval \<Rightarrow> jsval \<Rightarrow> world \<times> (jsval + jsval \<times> jsval)" where
  "addFileCommentToQuery rt w text values =
     (case getCallerFrame rt w of
        (w1, Inl e) \<Rightarrow> (w1, Inl e)
      | (w1, Inr fr) \<Rightarrow>
          (case resolveOriginalPosition rt w1 fr of
             (w2, resolvedPosition) \<Rightarrow>
               (case annotate resolvedPosition (store w2) text values of
                  Inl e \<Rightarrow> (w2, Inl e)
                | Inr (h, newText, newValues) \<Rightarrow> (w2\<lparr>store := h\<rparr>, Inr (newText, newValues)))))"

text \<open>What \<^verbatim>\<open>patchedQuery\<close> hands back: nothing, or the promise, known by how it settles.\<close>

datatype ret = ReturnUndefined | ReturnPromise "jsval + jsval"

text \<open>Calling the value \<open>f\<close> inside a \<^verbatim>\<open>then\<close> handler: a function is called; anything else
  throws there, and nothing handles the rejection.\<close>

definition invoke :: "jsval \<Rightarrow> jsval list \<Rightarrow> event" where
  "invoke f args = (if typeof f = ''function'' then Callback f args else UnhandledRejection TypeError)"

text \<open>The promise built at line 146: the annotation, then the wrapped \<^verbatim>\<open>query\<close> called
  with the pair it gave; a failed annotation rejects the promise and nothing is called.\<close>

definition forward ::
  "runtime \<Rightarrow> world \<Rightarrow> jsval \<Rightarrow> jsval \<Rightarrow> world \<times> (jsval + jsval)" where
  "forward rt w text values =
     (case addFileCommentToQuery rt w text values of
        (w1, Inl e) \<Rightarrow> (w1, Inl e)
      | (w1, Inr (newText, newValues)) \<Rightarrow>
          (emit w1 (OrigQuery [newText, newValues]),
           origQuery rt (store w1) newText newValues))"

text \<open>\<^verbatim>\<open>patchedQuery\<close>, one invocation run to completion. Arguments the caller left out
  are \<open>JUndefined\<close>.\<close>

definition patchedQuery ::
  "runtime \<Rightarrow> world \<Rightarrow> jsval \<Rightarrow> jsval \<Rightarrow> jsval \<Rightarrow> world \<times> ret" where
  "patchedQuery rt w text values0 callback0 =
     (let callback = (if typeof values0 = ''function'' then values0 else callback0);
          values = (if typeof values0 = ''function'' then JUndefined else values0)
      in case forward rt w text values of
           (w2, promise) \<Rightarrow>
             if truthy callback then
               (emit w2 (case promise of
                           Inr res \<Rightarrow> invoke callback [JNull, res]
                         | Inl err \<Rightarrow> invoke callback [err]),
                ReturnUndefined)
             else (w2, ReturnPromise promise))"

section \<open>Vocabulary of the properties\<close>

text \<open>The number of positions of \<open>s\<close> at which \<open>t\<close> occurs.\<close>

fun count_occurrences :: "string \<Rightarrow> string \<Rightarrow> nat" where
  "count_occurrences [] t = (if t = [] then 1 else 0)"
| "count_occurrences (x # xs) t = (if prefix t (x # xs) then 1 else 0) + count_occurrences xs t"

text \<open>The test of lines 53 to 57 as a predicate on call sites: a file name that is
  non-empty, does not contain \<^verbatim>\<open>node_modules\<close> and does not end with the file name of the
  instrumentation module. The code knows its own file by that ending only.\<close>

definition qualifies :: "callsite \<Rightarrow> bool" where
  "qualifies cs =
     (case getFileName cs of
        None \<Rightarrow> False
      | Some fn \<Rightarrow> fn \<noteq> [] \<and> \<not> includes_str fn ''node_modules''
                    \<and> \<not> endsWith fn ''pg-filecommenter-sourcemap.js'')"

text \<open>The three conditions in the words of the specification, for a module installed at
  the path \<open>own\<close>: a file name that is non-empty, does not contain \<^verbatim>\<open>node_modules\<close> and is not
  the module's own file.\<close>

definition eligible :: "string \<Rightarrow> callsite \<Rightarrow> bool" where
  "eligible own cs =
     (case getFileName cs of
        None \<Rightarrow> False
      | Some fn \<Rightarrow> fn \<noteq> [] \<and> \<not> includes_str fn ''node_modules'' \<and> fn \<noteq> own)"

definition frame_of :: "callsite \<Rightarrow> frame" where
  "frame_of cs = \<lparr>fileName = (case getFileName cs of Some fn \<Rightarrow> fn | None \<Rightarrow> []),
                  line = getLineNumber cs, column = getColumnNumber cs\<rparr>"

text \<open>No source map is available for a compiled file: absence is already recorded, or
  nothing is recorded and the map file does not exist, cannot be read or cannot be parsed.\<close>

definition map_unavailable :: "runtime \<Rightarrow> world \<Rightarrow> string \<Rightarrow> bool" where
  "map_unavailable rt w p =
     (case sourceMapCache w p of
        Some entry \<Rightarrow> entry = None
      | None \<Rightarrow>
          \<not> existsSync rt (p @ ''.map'')
          \<or> (case readFileSync rt (p @ ''.map'') of
                Inl e \<Rightarrow> True
              | Inr rawMap \<Rightarrow> isl (new_SourceMapConsumer rt rawMap)))"

text \<open>The events that a call added to the trace, and the kinds of event.\<close>

definition new_events :: "world \<Rightarrow> world \<Rightarrow> event list" where
  "new_events w w' = drop (length (trace w)) (trace w')"

fun is_OrigQuery :: "event \<Rightarrow> bool" where
  "is_OrigQuery (OrigQuery args) = True"
| "is_OrigQuery e = False"

fun is_Callback :: "event \<Rightarrow> bool" where
  "is_Callback (Callback f args) = True"
| "is_Callback e = False"

fun is_file_access :: "event \<Rightarrow> bool" where
  "is_file_access (ExistsSync p) = True"
| "is_file_access (ReadFileSync p) = True"
| "is_file_access (ParseMap raw) = True"
| "is_file_access e = False"

text \<open>Loading maps for a sequence of files, each under its own state of the file system.\<close>

fun load_all :: "world \<Rightarrow> (runtime \<times> string) list \<Rightarrow> world" where
  "load_all w [] = w"
| "load_all w ((rt, p) # ps) = load_all (fst (loadSourceMapForFile rt w p)) ps"

section \<open>Scenarios\<close>

text \<open>The call of \<^verbatim>\<open>example-query.js\<close> as the specification's scenarios place it: the
  query is issued from \<^verbatim>\<open>app.js\<close> at line 7, column 3, through the two frames of the
  instrumentation module; no map file exists; the process has just started.\<close>

definition app_stack :: "callsite list" where
  "app_stack =
     [\<lparr>getFileName = Some ''/srv/pg-filecommenter-sourcemap.js'',
        getLineNumber = Some 106, getColumnNumber = Some 17\<rparr>,
      \<lparr>getFileName = Some ''/srv/pg-filecommenter-sourcemap.js'',
        getLineNumber = Some 146, getColumnNumber = Some 21\<rparr>,
      \<lparr>getFileName = Some ''/srv/app.js'',
        getLineNumber = Some 7, getColumnNumber = Some 3\<rparr>]"

definition app_runtime :: runtime where
  "app_runtime =
     \<lparr>existsSync = (\<lambda>p. False),
      readFileSync = (\<lambda>p. Inl (JError ''ENOENT'')),
      new_SourceMapConsumer = (\<lambda>raw. Inl (JError ''Error'')),
      captureStackTrace = Inr app_stack,
      origQuery = (\<lambda>h t v. Inr (JArr [t]))\<rparr>"

definition fresh_world :: world where
  "fresh_world =
     \<lparr>sourceMapCache = Map.empty, prepareStackTrace = Host JUndefined,
      store = (\<lambda>r k. JUndefined), trace = []\<rparr>"

definition app_frame :: frame where
  "app_frame = \<lparr>fileName = ''/srv/app.js'', line = Some 7, column = Some 3\<rparr>"

text \<open>A map for \<^verbatim>\<open>app.js\<close> that sends line 7, column 3 to \<^verbatim>\<open>app.ts:5:10\<close>, and one whose
  source name at that position is the empty string.\<close>

definition ts_consumer :: consumer where
  "ts_consumer =
     Consumer (\<lambda>l c. if l = 7 \<and> c = 3
                      then Some \<lparr>source = Some ''app.ts'', orig_line = Some 5, orig_column = Some 10\<rparr>
                      else Some \<lparr>source = None, orig_line = None, orig_column = None\<rparr>)"

definition nameless_consumer :: consumer where
  "nameless_consumer =
     Consumer (\<lambda>l c. Some \<lparr>source = Some [], orig_line = Some 5, orig_column = Some 10\<rparr>)"

definition world_with :: "consumer \<Rightarrow> world" where
  "world_with m = cache_set fresh_world ''/srv/app.js'' (Some m)"

text \<open>The engine has no stack left when the error object is built.\<close>

definition exhausted_runtime :: runtime where
  "exhausted_runtime = app_runtime\<lparr>captureStackTrace := Inl (JError ''RangeError'')\<rparr>"

text \<open>A structured query with a name beside its text.\<close>

definition named_query :: heap where
  "named_query = (\<lambda>r k. if r = 0 \<and> k = ''text'' then JStr ''SELECT 1''
                         else if r = 0 \<and> k = ''name'' then JStr ''q1'' else JUndefined)"

definition annotated_named_query :: heap where
  "annotated_named_query =
     named_query(0 := (named_query 0)(''text'' := JStr ''SELECT 1 /* file=unknown */;''))"

text \<open>A file system where the map file of every compiled file exists and cannot be read,
  and one where it can be read and parses to the map above.\<close>

definition unreadable_runtime :: runtime where
  "unreadable_runtime = app_runtime\<lparr>existsSync := (\<lambda>p. True)\<rparr>"

definition mapped_runtime :: runtime where
  "mapped_runtime =
     app_runtime\<lparr>existsSync := (\<lambda>p. True),
                 readFileSync := (\<lambda>p. Inr ''{}''),
                 new_SourceMapConsumer := (\<lambda>raw. Inr ts_consumer)\<rparr>"

text \<open>A pool whose own \<^verbatim>\<open>query\<close> fails.\<close>

definition refusing_runtime :: runtime where
  "refusing_runtime = app_runtime\<lparr>origQuery := (\<lambda>h t v. Inl (JError ''ECONNREFUSED''))\<rparr>"

text \<open>The module is installed at \<^verbatim>\<open>/srv/pg-filecommenter-sourcemap.js\<close>. A test file of the
  same name in another directory issues a query on behalf of \<^verbatim>\<open>runner.js\<close>.\<close>

definition own_file :: string where
  "own_file = ''/srv/pg-filecommenter-sourcemap.js''"

definition namesake_stack :: "callsite list" where
  "namesake_stack =
     [\<lparr>getFileName = Some ''/srv/pg-filecommenter-sourcemap.js'',
        getLineNumber = Some 106, getColumnNumber = Some 17\<rparr>,
      \<lparr>getFileName = Some ''/srv/pg-filecommenter-sourcemap.js'',
        getLineNumber = Some 146, getColumnNumber = Some 21\<rparr>,
      \<lparr>getFileName = Some ''/srv/test/pg-filecommenter-sourcemap.js'',
        getLineNumber = Some 9, getColumnNumber = Some 14\<rparr>,
      \<lparr>getFileName = Some ''/srv/runner.js'',
        getLineNumber = Some 12, getColumnNumber = Some 5\<rparr>]"

definition namesake_runtime :: runtime where
  "namesake_runtime = app_runtime\<lparr>captureStackTrace := Inr namesake_stack\<rparr>"

definition runner_frame :: frame where
  "runner_frame = \<lparr>fileName = ''/srv/runner.js'', line = Some 12, column = Some 5\<rparr>"

section \<open>Evaluation rules\<close>

lemmas string_eval =
  trim_def is_ws_def endsWith_def suffix_to_prefix includes_str_def sublist_code

lemmas pipeline_defs =
  patchedQuery_def forward_def addFileCommentToQuery_def getCallerFrame_def
  resolveOriginalPosition_def loadSourceMapForFile_def annotate_def comment_of_def
  emit_def cache_set_def invoke_def compiled_position_def basename_def Let_def

lemmas scenario_defs =
  app_runtime_def app_stack_def fresh_world_def app_frame_def ts_consumer_def
  nameless_consumer_def world_with_def exhausted_runtime_def named_query_def
  annotated_named_query_def unreadable_runtime_def mapped_runtime_def
  refusing_runtime_def own_file_def namesake_stack_def namesake_runtime_def runner_frame_def

section \<open>Query Annotator: plain strings\<close>

lemma annotate_JStr:
  "annotate pos h (JStr s) v =
     (if endsWith (trim s) '';''
      then Inr (h, JStr (butlast (trim s) @ '' '' @ comment_of pos @ '';''), v)
      else Inr (h, JStr (s @ '' '' @ comment_of pos), v))"
  by (simp add: annotate_def)

text \<open>The annotated string always closes with the comment and one terminator.\<close>

lemma annotate_string_terminated:
  assumes "endsWith (trim s) '';''"
  shows "\<exists>r. annotate pos h (JStr s) v = Inr (h, JStr (r @ '' */;''), v)"
proof -
  obtain content where c: "comment_of pos = ''/* '' @ content @ '' */''"
    by (simp add: comment_of_def Let_def)
  have "annotate pos h (JStr s) v
          = Inr (h, JStr ((butlast (trim s) @ '' /* '' @ content) @ '' */;''), v)"
    using assms by (simp add: annotate_JStr c)
  then show ?thesis by blast
qed

text \<open>
  Claim C1. For a plain string query whose trimmed text ends with \<^verbatim>\<open>;\<close>, the annotated
  string should end in one terminator and contain exactly one annotation comment, also
  when the query already carries an identical comment. The string branch appends without
  looking: at the query \<^verbatim>\<open>SELECT NOW() /* file=app.js:7:3 */;\<close> and the position
  \<^verbatim>\<open>app.js:7:3\<close> the result carries the comment twice.
\<close>

theorem annotate_string_repeats_comment:
  "annotate (Some ''app.js:7:3'') h (JStr ''SELECT NOW() /* file=app.js:7:3 */;'') v
     = Inr (h, JStr ''SELECT NOW() /* file=app.js:7:3 */ /* file=app.js:7:3 */;'', v)
   \<and> count_occurrences ''SELECT NOW() /* file=app.js:7:3 */ /* file=app.js:7:3 */;''
         (comment_of (Some ''app.js:7:3'')) = 2"
  by (simp add: annotate_JStr comment_of_def trim_def is_ws_def endsWith_def suffix_to_prefix)

section \<open>Query Annotator: payloads it does not recognise\<close>

lemma annotate_passthrough:
  assumes "text \<noteq> JNull" and "\<And>s. text \<noteq> JStr s"
    and "\<And>r. text = JObj r \<Longrightarrow> \<not> truthy (h r ''text'')"
  shows "annotate pos h text v = Inr (h, text, v)"
  using assms by (cases "text") (auto simp: annotate_def)

text \<open>
  Claim C5. A payload that is neither a string nor an object with a truthy \<^verbatim>\<open>text\<close>
  should come back unmodified, and the annotation should never throw. For \<^verbatim>\<open>null\<close> the
  test \<^verbatim>\<open>typeof text === 'object'\<close> succeeds and the read of \<^verbatim>\<open>text.text\<close> throws: the
  annotation fails with a \<^verbatim>\<open>TypeError\<close>, the promise of \<^verbatim>\<open>patchedQuery\<close> rejects with it
  and the wrapped \<^verbatim>\<open>query\<close> is never called.
\<close>

theorem annotate_null_throws:
  "annotate pos h JNull v = Inl TypeError
   \<and> snd (patchedQuery app_runtime fresh_world JNull JUndefined JUndefined)
       = ReturnPromise (Inl TypeError)
   \<and> filter is_OrigQuery
       (trace (fst (patchedQuery app_runtime fresh_world JNull JUndefined JUndefined))) = []"
  by (simp add: pipeline_defs scenario_defs string_eval)

section \<open>Query Annotator: structured queries\<close>

lemma annotate_JObj:
  "annotate pos h (JObj r) v =
     (if truthy (h r ''text'') then
        (case method_includes (h r ''text'') (comment_of pos) of
           Inl e \<Rightarrow> Inl e
         | Inr True \<Rightarrow> Inr (h, JObj r, v)
         | Inr False \<Rightarrow>
             (case method_trim (h r ''text'') of
                Inl e \<Rightarrow> Inl e
              | Inr s \<Rightarrow>
                  Inr (h(r := (h r)(''text'' :=
                         JStr (replace_terminator s @ '' '' @ comment_of pos @ '';''))),
                       JObj r, v)))
      else Inr (h, JObj r, v))"
  by (simp add: annotate_def Let_def split: sum.splits bool.splits)

lemma includes_appended: "includes_str (a @ x # c @ b) c"
proof -
  have "sublist c ((a @ [x]) @ c @ b)" by (rule sublist_appendI)
  then show ?thesis by (simp add: includes_str_def)
qed

text \<open>Only the \<^verbatim>\<open>text\<close> property of the object passed in is ever written.\<close>

lemma annotate_object_frame:
  assumes "annotate pos h (JObj r) v = Inr (h', q', v')"
  shows "q' = JObj r \<and> v' = v \<and> (\<forall>k. k \<noteq> ''text'' \<longrightarrow> h' r k = h r k)
         \<and> (\<forall>r'. r' \<noteq> r \<longrightarrow> h' r' = h r')"
  using assms
  by (auto simp: annotate_JObj split: if_splits sum.splits bool.splits)

text \<open>After one annotation the text holds the comment, so the guard of line 121 stops
  the second one.\<close>

lemma annotate_again:
  assumes "annotate pos h (JObj r) v = Inr (h', q', v')"
  shows "annotate pos h' q' v' = Inr (h', q', v')"
proof -
  let ?t = "h r ''text''"
  let ?c = "comment_of pos"
  show ?thesis
  proof (cases "truthy ?t")
    case False
    with assms show ?thesis by (auto simp: annotate_JObj)
  next
    case True
    show ?thesis
    proof (cases "method_includes ?t ?c")
      case (Inl e)
      with assms True show ?thesis by (simp add: annotate_JObj)
    next
      case (Inr b)
      show ?thesis
      proof (cases b)
        case True
        with assms Inr \<open>truthy ?t\<close> show ?thesis by (auto simp: annotate_JObj)
      next
        case False
        show ?thesis
        proof (cases "method_trim ?t")
          case (Inl e)
          with assms Inr False \<open>truthy ?t\<close> show ?thesis by (simp add: annotate_JObj)
        next
          case s: (Inr s)
          with assms Inr False \<open>truthy ?t\<close>
          have "h' = h(r := (h r)(''text'' := JStr (replace_terminator s @ '' '' @ ?c @ '';'')))"
            and "q' = JObj r" and "v' = v"
            by (auto simp: annotate_JObj)
          then show ?thesis
            by (simp add: annotate_JObj includes_appended)
        qed
      qed
    qed
  qed
qed

text \<open>
  Claim C4. For a structured query object and a resolved position, annotating twice with
  the same position gives what annotating once gives (a throw of the first call included),
  and a successful call returns the same object reference and the same values, leaves
  every property of that object other than \<^verbatim>\<open>text\<close> as it was, and leaves every other
  object of the store as it was.
\<close>

theorem annotate_object_idempotent:
  "(case annotate pos h (JObj r) v of
      Inl e \<Rightarrow> Inl e
    | Inr (h', q', v') \<Rightarrow> annotate pos h' q' v') = annotate pos h (JObj r) v
   \<and> (\<forall>h' q' v'. annotate pos h (JObj r) v = Inr (h', q', v') \<longrightarrow>
         q' = JObj r \<and> v' = v
         \<and> (\<forall>k. k \<noteq> ''text'' \<longrightarrow> h' r k = h r k)
         \<and> (\<forall>r'. r' \<noteq> r \<longrightarrow> h' r' = h r'))"
proof (intro conjI allI impI)
  show "(case annotate pos h (JObj r) v of
      Inl e \<Rightarrow> Inl e
    | Inr (h', q', v') \<Rightarrow> annotate pos h' q' v') = annotate pos h (JObj r) v"
  proof (cases "annotate pos h (JObj r) v")
    case (Inl e)
    then show ?thesis by simp
  next
    case (Inr x)
    obtain h' q' v' where "x = (h', q', v')" by (cases x) auto
    with Inr annotate_again [of pos h r v h' q' v'] show ?thesis by simp
  qed
next
  fix h' q' v' assume a: "annotate pos h (JObj r) v = Inr (h', q', v')"
  from annotate_object_frame [OF a] show "q' = JObj r" "v' = v" by simp_all
  from annotate_object_frame [OF a] show "\<And>k. k \<noteq> ''text'' \<Longrightarrow> h' r k = h r k" by simp
  from annotate_object_frame [OF a] show "\<And>r'. r' \<noteq> r \<Longrightarrow> h' r' = h r'" by simp
qed

theorem annotate_object_idempotent_witness:
  "annotate None named_query (JObj 0) JUndefined
     = Inr (annotated_named_query, JObj 0, JUndefined)
   \<and> annotate None annotated_named_query (JObj 0) JUndefined
       = Inr (annotated_named_query, JObj 0, JUndefined)
   \<and> annotated_named_query 0 ''name'' = JStr ''q1''
   \<and> annotated_named_query 1 = named_query 1"
proof -
  have a: "annotate None named_query (JObj 0) JUndefined
             = Inr (annotated_named_query, JObj 0, JUndefined)"
    by (simp add: annotate_JObj annotated_named_query_def named_query_def comment_of_def
        replace_terminator_def string_eval)
  from annotate_object_idempotent [of None named_query 0 JUndefined] a
  show ?thesis by (simp add: named_query_def)
qed

section \<open>Frame Resolver: the selected frame\<close>

lemma getCallerFrame_loop_None: "getCallerFrame_loop stack = None \<longleftrightarrow> (\<forall>cs \<in> set stack. \<not> qualifies cs)"
  by (induction stack) (auto simp: qualifies_def split: option.splits)

lemma getCallerFrame_loop_Some:
  "getCallerFrame_loop stack = Some f \<Longrightarrow>
     \<exists>pre cs post. stack = pre @ cs # post \<and> (\<forall>x \<in> set pre. \<not> qualifies x)
        \<and> qualifies cs \<and> f = frame_of cs"
proof (induction stack)
  case Nil
  then show ?case by simp
next
  case (Cons a stack)
  show ?case
  proof (cases "qualifies a")
    case True
    with Cons.prems have "f = frame_of a"
      by (auto simp: qualifies_def frame_of_def split: option.splits)
    with True have "a # stack = [] @ a # stack \<and> (\<forall>x \<in> set []. \<not> qualifies x) \<and> qualifies a \<and> f = frame_of a"
      by simp
    then show ?thesis by blast
  next
    case False
    with Cons.prems have "getCallerFrame_loop stack = Some f"
      by (auto simp: qualifies_def split: option.splits if_splits)
    from Cons.IH [OF this] obtain pre cs post where
      p: "stack = pre @ cs # post" "\<forall>x \<in> set pre. \<not> qualifies x" "qualifies cs" "f = frame_of cs"
      by blast
    with False have "a # stack = (a # pre) @ cs # post \<and> (\<forall>x \<in> set (a # pre). \<not> qualifies x) \<and> qualifies cs \<and> f = frame_of cs"
      by simp
    then show ?thesis by blast
  qed
qed

lemma qualifies_frame_of:
  "qualifies cs \<Longrightarrow> fileName (frame_of cs) \<noteq> [] \<and> \<not> includes_str (fileName (frame_of cs)) ''node_modules''
     \<and> \<not> endsWith (fileName (frame_of cs)) ''pg-filecommenter-sourcemap.js''
     \<and> getFileName cs = Some (fileName (frame_of cs))"
  by (auto simp: qualifies_def frame_of_def split: option.splits)

lemma getCallerFrame_loop_Some_props:
  assumes "getCallerFrame_loop stack = Some f"
  shows "fileName f \<noteq> [] \<and> \<not> includes_str (fileName f) ''node_modules''
           \<and> \<not> endsWith (fileName f) ''pg-filecommenter-sourcemap.js''
           \<and> (\<exists>pre cs post. stack = pre @ cs # post \<and> (\<forall>x \<in> set pre. \<not> qualifies x)
                 \<and> qualifies cs \<and> f = frame_of cs)"
proof -
  from getCallerFrame_loop_Some [OF assms] obtain pre cs post where
    p: "stack = pre @ cs # post" "\<forall>x \<in> set pre. \<not> qualifies x" "qualifies cs" "f = frame_of cs"
    by blast
  have ex: "\<exists>pre cs post. stack = pre @ cs # post \<and> (\<forall>x \<in> set pre. \<not> qualifies x)
                 \<and> qualifies cs \<and> f = frame_of cs"
    using p by (intro exI [of _ pre] exI [of _ cs] exI [of _ post]) simp
  from qualifies_frame_of [OF p(3)] have
    "fileName f \<noteq> [] \<and> \<not> includes_str (fileName f) ''node_modules''
           \<and> \<not> endsWith (fileName f) ''pg-filecommenter-sourcemap.js''"
    unfolding p(4) by simp
  with ex show ?thesis by simp
qed

text \<open>
  Claim C7, as stated, asks for the innermost frame that has a non-empty file name, is
  outside \<^verbatim>\<open>node_modules\<close> and is not the module's own file. The loop tells the module's
  file by the ending of the name: the call site of another file with the same name meets
  the three conditions and is passed over, and the frame behind it is returned.
\<close>

theorem getCallerFrame_skips_namesake_file:
  "captureStackTrace namesake_runtime = Inr namesake_stack
   \<and> snd (getCallerFrame namesake_runtime fresh_world) = Inr (Some runner_frame)
   \<and> \<not> eligible own_file (namesake_stack ! 0)
   \<and> \<not> eligible own_file (namesake_stack ! 1)
   \<and> eligible own_file (namesake_stack ! 2)
   \<and> getFileName (namesake_stack ! 2) = Some ''/srv/test/pg-filecommenter-sourcemap.js''
   \<and> frame_of (namesake_stack ! 2) \<noteq> runner_frame"
  by (simp add: getCallerFrame_def eligible_def frame_of_def scenario_defs string_eval)

text \<open>
  Claim C7, amended. For every captured call stack, \<^verbatim>\<open>getCallerFrame\<close> returns \<^verbatim>\<open>null\<close> exactly
  when no call site passes the test of lines 53 to 57; otherwise it returns the frame of
  the innermost call site that passes it (every call site before it fails the test). The
  file name of that frame is non-empty, does not contain \<^verbatim>\<open>node_modules\<close> and does not end
  with \<^verbatim>\<open>pg-filecommenter-sourcemap.js\<close>, so it is never the module's own file as long as
  the module bears that name.
\<close>

theorem getCallerFrame_selects_first_qualifying:
  assumes "captureStackTrace rt = Inr stack"
  shows "\<exists>res. snd (getCallerFrame rt w) = Inr res
     \<and> (res = None \<longleftrightarrow> (\<forall>cs \<in> set stack. \<not> qualifies cs))
     \<and> (\<forall>f. res = Some f \<longrightarrow>
           fileName f \<noteq> [] \<and> \<not> includes_str (fileName f) ''node_modules''
           \<and> \<not> endsWith (fileName f) ''pg-filecommenter-sourcemap.js''
           \<and> (\<forall>own. endsWith own ''pg-filecommenter-sourcemap.js'' \<longrightarrow> fileName f \<noteq> own)
           \<and> (\<exists>pre cs post. stack = pre @ cs # post \<and> (\<forall>x \<in> set pre. \<not> qualifies x)
                 \<and> qualifies cs \<and> f = frame_of cs))"
proof (intro exI [of _ "getCallerFrame_loop stack"] conjI allI impI)
  show "snd (getCallerFrame rt w) = Inr (getCallerFrame_loop stack)"
    using assms by (simp add: getCallerFrame_def Let_def)
  show "(getCallerFrame_loop stack = None) = (\<forall>cs \<in> set stack. \<not> qualifies cs)"
    by (rule getCallerFrame_loop_None)
next
  fix f assume a: "getCallerFrame_loop stack = Some f"
  from getCallerFrame_loop_Some_props [OF a] show "fileName f \<noteq> []" by simp
  from getCallerFrame_loop_Some_props [OF a]
  show "\<not> includes_str (fileName f) ''node_modules''" by simp
  from getCallerFrame_loop_Some_props [OF a]
  show n: "\<not> endsWith (fileName f) ''pg-filecommenter-sourcemap.js''" by simp
  from getCallerFrame_loop_Some_props [OF a]
  show "\<exists>pre cs post. stack = pre @ cs # post \<and> (\<forall>x \<in> set pre. \<not> qualifies x)
                 \<and> qualifies cs \<and> f = frame_of cs" by simp
  fix own assume o: "endsWith own ''pg-filecommenter-sourcemap.js''"
  show "fileName f \<noteq> own"
  proof
    assume "fileName f = own"
    with o n show False by simp
  qed
qed

theorem getCallerFrame_selects_first_qualifying_witness:
  "captureStackTrace app_runtime = Inr app_stack
   \<and> snd (getCallerFrame app_runtime fresh_world) = Inr (Some app_frame)
   \<and> fileName app_frame \<noteq> []
   \<and> \<not> includes_str (fileName app_frame) ''node_modules''
   \<and> \<not> endsWith (fileName app_frame) ''pg-filecommenter-sourcemap.js''
   \<and> endsWith own_file ''pg-filecommenter-sourcemap.js''
   \<and> fileName app_frame \<noteq> own_file"
proof -
  have c: "captureStackTrace app_runtime = Inr app_stack" by (simp add: app_runtime_def)
  have e: "snd (getCallerFrame app_runtime fresh_world) = Inr (Some app_frame)"
    by (simp add: getCallerFrame_def scenario_defs string_eval)
  have o: "endsWith own_file ''pg-filecommenter-sourcemap.js''"
    by (simp add: own_file_def string_eval)
  from getCallerFrame_selects_first_qualifying [OF c, of fresh_world]
  obtain res where r: "snd (getCallerFrame app_runtime fresh_world) = Inr res"
    and p: "\<forall>f. res = Some f \<longrightarrow>
           fileName f \<noteq> [] \<and> \<not> includes_str (fileName f) ''node_modules''
           \<and> \<not> endsWith (fileName f) ''pg-filecommenter-sourcemap.js''
           \<and> (\<forall>own. endsWith own ''pg-filecommenter-sourcemap.js'' \<longrightarrow> fileName f \<noteq> own)
           \<and> (\<exists>pre cs post. app_stack = pre @ cs # post \<and> (\<forall>x \<in> set pre. \<not> qualifies x)
                 \<and> qualifies cs \<and> f = frame_of cs)"
    by blast
  from r e have "res = Some app_frame" by simp
  with p have q: "fileName app_frame \<noteq> [] \<and> \<not> includes_str (fileName app_frame) ''node_modules''
           \<and> \<not> endsWith (fileName app_frame) ''pg-filecommenter-sourcemap.js''
           \<and> (\<forall>own. endsWith own ''pg-filecommenter-sourcemap.js'' \<longrightarrow> fileName app_frame \<noteq> own)"
    by blast
  with o have "fileName app_frame \<noteq> own_file" by blast
  with c e o q show ?thesis by blast
qed

section \<open>Frame Resolver: the global formatter\<close>

text \<open>When the stack capture completes, the saved formatter is back in place before any
  frame is inspected, and the call leaves the whole process state as it found it.\<close>

lemma getCallerFrame_restores_when_captured:
  assumes "captureStackTrace rt = Inr stack"
  shows "prepareStackTrace (fst (getCallerFrame rt w)) = prepareStackTrace w
         \<and> fst (getCallerFrame rt w) = w"
  using assms by (simp add: getCallerFrame_def Let_def)

text \<open>
  Claim C9. \<^verbatim>\<open>Error.prepareStackTrace\<close> should have its entry value again when
  \<^verbatim>\<open>getCallerFrame\<close> is left, on every path, also when the stack capture fails. Lines 42 and
  49 save the formatter and assign it back, with no \<^verbatim>\<open>try\<close>/\<^verbatim>\<open>finally\<close> around the capture
  between them: when building the error object or reading its stack throws, as it does
  when the call stack is exhausted, the function is left with the temporary formatter
  still installed.
\<close>

theorem getCallerFrame_capture_failure_keeps_formatter:
  "prepareStackTrace fresh_world = Host JUndefined
   \<and> snd (getCallerFrame exhausted_runtime fresh_world) = Inl (JError ''RangeError'')
   \<and> prepareStackTrace (fst (getCallerFrame exhausted_runtime fresh_world)) = RawFrames
   \<and> prepareStackTrace (fst (getCallerFrame exhausted_runtime fresh_world))
       \<noteq> prepareStackTrace fresh_world"
  by (simp add: getCallerFrame_def scenario_defs)

section \<open>Source Map Cache: memoization\<close>

lemma loadSourceMapForFile_cached:
  "sourceMapCache w p = Some e \<Longrightarrow> loadSourceMapForFile rt w p = (w, e)"
  by (simp add: loadSourceMapForFile_def)

lemma loadSourceMapForFile_records:
  "sourceMapCache (fst (loadSourceMapForFile rt w p)) p = Some (snd (loadSourceMapForFile rt w p))"
  by (simp add: loadSourceMapForFile_def cache_set_def emit_def Let_def split: option.splits sum.splits)

lemma loadSourceMapForFile_keeps:
  "sourceMapCache w p = Some e \<Longrightarrow> sourceMapCache (fst (loadSourceMapForFile rt w q)) p = Some e"
  by (auto simp add: loadSourceMapForFile_def cache_set_def emit_def Let_def split: option.splits sum.splits)

lemma load_all_keeps:
  "sourceMapCache w p = Some e \<Longrightarrow> sourceMapCache (load_all w ops) p = Some e"
proof (induction ops arbitrary: w)
  case Nil
  then show ?case by simp
next
  case (Cons a ops)
  obtain rt q where a: "a = (rt, q)" by (cases a)
  from Cons.prems have "sourceMapCache (fst (loadSourceMapForFile rt w q)) p = Some e"
    by (rule loadSourceMapForFile_keeps)
  from Cons.IH [OF this] a show ?case by simp
qed

lemma loadSourceMapForFile_unavailable:
  assumes "map_unavailable rt w p"
  shows "snd (loadSourceMapForFile rt w p) = None"
  using assms
  by (auto simp add: map_unavailable_def loadSourceMapForFile_def cache_set_def emit_def Let_def isl_def
      split: option.splits sum.splits)

lemma loadSourceMapForFile_unavailable_records:
  assumes "sourceMapCache w p = None" and "map_unavailable rt w p"
  shows "sourceMapCache (fst (loadSourceMapForFile rt w p)) = (sourceMapCache w)(p \<mapsto> None)"
  using assms
  by (auto simp add: map_unavailable_def loadSourceMapForFile_def cache_set_def emit_def Let_def isl_def
      split: option.splits sum.splits)

text \<open>
  Claim C8. \<^verbatim>\<open>loadSourceMapForFile\<close> is memoized: the first call for a path records what it
  returns, and after it, whatever other paths are loaded in between and whatever the file
  system has become, a call for the same path returns the recorded entry and leaves the
  process state untouched, so it makes no call to the file system or the parser. The
  function has no failing outcome: when nothing is recorded and the map file is missing,
  unreadable or unparsable, it returns \<^verbatim>\<open>null\<close> and records \<^verbatim>\<open>null\<close>, the same entry in
  all three cases.
\<close>

theorem loadSourceMapForFile_memoized:
  "(let w1 = fst (loadSourceMapForFile rt w p); r1 = snd (loadSourceMapForFile rt w p);
        w2 = load_all w1 ops
    in sourceMapCache w1 p = Some r1
       \<and> loadSourceMapForFile rt' w2 p = (w2, r1)
       \<and> new_events w2 (fst (loadSourceMapForFile rt' w2 p)) = [])
   \<and> (sourceMapCache w p = None \<and> map_unavailable rt w p
       \<longrightarrow> snd (loadSourceMapForFile rt w p) = None
           \<and> sourceMapCache (fst (loadSourceMapForFile rt w p)) = (sourceMapCache w)(p \<mapsto> None))"
proof -
  let ?w1 = "fst (loadSourceMapForFile rt w p)"
  let ?r1 = "snd (loadSourceMapForFile rt w p)"
  let ?w2 = "load_all ?w1 ops"
  have rec: "sourceMapCache ?w1 p = Some ?r1" by (rule loadSourceMapForFile_records)
  then have "sourceMapCache ?w2 p = Some ?r1" by (rule load_all_keeps)
  then have again: "loadSourceMapForFile rt' ?w2 p = (?w2, ?r1)" by (rule loadSourceMapForFile_cached)
  then have quiet: "new_events ?w2 (fst (loadSourceMapForFile rt' ?w2 p)) = []"
    by (simp add: new_events_def)
  have fail: "sourceMapCache w p = None \<and> map_unavailable rt w p
       \<longrightarrow> ?r1 = None \<and> sourceMapCache ?w1 = (sourceMapCache w)(p \<mapsto> None)"
    using loadSourceMapForFile_unavailable [of rt w p] loadSourceMapForFile_unavailable_records [of w p rt] by blast
  from rec again quiet fail show ?thesis by (simp add: Let_def)
qed

theorem loadSourceMapForFile_memoized_witness:
  "sourceMapCache fresh_world ''/srv/app.js'' = None
   \<and> map_unavailable unreadable_runtime fresh_world ''/srv/app.js''
   \<and> snd (loadSourceMapForFile unreadable_runtime fresh_world ''/srv/app.js'') = None
   \<and> snd (loadSourceMapForFile mapped_runtime
            (load_all (fst (loadSourceMapForFile unreadable_runtime fresh_world ''/srv/app.js''))
               [(mapped_runtime, ''/srv/lib.js'')]) ''/srv/app.js'') = None
   \<and> snd (loadSourceMapForFile mapped_runtime fresh_world ''/srv/app.js'') = Some ts_consumer"
proof -
  have h: "sourceMapCache fresh_world ''/srv/app.js'' = None
     \<and> map_unavailable unreadable_runtime fresh_world ''/srv/app.js''"
    by (simp add: map_unavailable_def scenario_defs)
  have m: "snd (loadSourceMapForFile mapped_runtime fresh_world ''/srv/app.js'') = Some ts_consumer"
    by (simp add: loadSourceMapForFile_def emit_def cache_set_def mapped_runtime_def app_runtime_def fresh_world_def Let_def)
  from loadSourceMapForFile_memoized [of unreadable_runtime fresh_world "''/srv/app.js''"
      "[(mapped_runtime, ''/srv/lib.js'')]" mapped_runtime] h m
  show ?thesis by (simp add: Let_def)
qed

section \<open>Position Translator: resolved positions\<close>

lemma basename_no_separator: "CHR ''/'' \<notin> set (basename p)"
  by (auto simp: basename_def dest: set_takeWhileD)

lemma basename_decomposition:
  "\<exists>dir trail. p = dir @ basename p @ trail \<and> set trail \<subseteq> {CHR ''/''}
      \<and> (dir = [] \<or> last dir = CHR ''/'')"
proof -
  define t where "t = takeWhile (\<lambda>c. c = CHR ''/'') (rev p)"
  define x where "x = dropWhile (\<lambda>c. c = CHR ''/'') (rev p)"
  define b where "b = takeWhile (\<lambda>c. c \<noteq> CHR ''/'') x"
  define d where "d = dropWhile (\<lambda>c. c \<noteq> CHR ''/'') x"
  have "t @ x = rev p" by (simp add: t_def x_def)
  moreover have "b @ d = x" by (simp add: b_def d_def)
  ultimately have "rev p = t @ b @ d" by simp
  then have "rev (rev p) = rev (t @ b @ d)" by (rule arg_cong)
  then have p: "p = rev d @ rev b @ rev t" by simp
  have bn: "basename p = rev b" by (simp add: basename_def b_def x_def)
  have ts: "set (rev t) \<subseteq> {CHR ''/''}" unfolding t_def by (auto dest: set_takeWhileD)
  have ds: "rev d = [] \<or> last (rev d) = CHR ''/''"
  proof (cases d)
    case Nil
    then show ?thesis by simp
  next
    case (Cons a list)
    then have "d \<noteq> []" by simp
    then have "\<not> (hd d \<noteq> CHR ''/'')" unfolding d_def by (rule hd_dropWhile)
    with Cons show ?thesis by (simp add: last_rev)
  qed
  from p bn have "p = rev d @ basename p @ rev t" by simp
  with ts ds show ?thesis by (intro exI [of _ "rev d"] exI [of _ "rev t"]) simp
qed

lemma resolveOriginalPosition_frame:
  assumes "fileName f \<noteq> []" and "line f = Some l" and "l \<noteq> 0" and "column f = Some c" and "c \<noteq> 0"
  shows "resolveOriginalPosition rt w (Some f) =
     (case loadSourceMapForFile rt w (fileName f) of
        (w1, None) \<Rightarrow> (w1, Some (compiled_position (fileName f) l c))
      | (w1, Some mapConsumer) \<Rightarrow>
          (case originalPositionFor mapConsumer l c of
             None \<Rightarrow> (w1, Some (compiled_position (fileName f) l c))
           | Some originalPos \<Rightarrow>
               (case source originalPos of
                  None \<Rightarrow> (w1, Some (compiled_position (fileName f) l c))
                | Some src \<Rightarrow>
                    if src \<noteq> []
                    then (w1, Some (src @ '':'' @ template_num (orig_line originalPos)
                                     @ '':'' @ template_num (orig_column originalPos)))
                    else (w1, Some (compiled_position (fileName f) l c)))))"
  using assms by (simp add: resolveOriginalPosition_def)

text \<open>
  Claim C3. For a frame with a file name, line and column at least 1, and no source map
  available for the file (absence recorded, or no map file, or the map unreadable or
  unparsable), \<^verbatim>\<open>resolveOriginalPosition\<close> returns the base name of the file, the line and
  the column, joined by colons. The base name holds no directory separator and is the last
  component of the path. The query \<^verbatim>\<open>SELECT NOW();\<close> issued from the unmapped \<^verbatim>\<open>app.js\<close> at
  line 7, column 3 is annotated to \<^verbatim>\<open>SELECT NOW() /* file=app.js:7:3 */;\<close>.
\<close>

theorem resolveOriginalPosition_unmapped:
  assumes "fileName f \<noteq> []" and "line f = Some l" and "1 \<le> l" and "column f = Some c" and "1 \<le> c"
    and "map_unavailable rt w (fileName f)"
  shows "snd (resolveOriginalPosition rt w (Some f))
           = Some (basename (fileName f) @ '':'' @ string_of_int l @ '':'' @ string_of_int c)
         \<and> CHR ''/'' \<notin> set (basename (fileName f))
         \<and> (\<exists>dir trail. fileName f = dir @ basename (fileName f) @ trail
               \<and> set trail \<subseteq> {CHR ''/''} \<and> (dir = [] \<or> last dir = CHR ''/''))
         \<and> snd (addFileCommentToQuery app_runtime fresh_world (JStr ''SELECT NOW();'') JUndefined)
             = Inr (JStr ''SELECT NOW() /* file=app.js:7:3 */;'', JUndefined)"
proof (intro conjI)
  have n: "snd (loadSourceMapForFile rt w (fileName f)) = None"
    using assms(6) by (rule loadSourceMapForFile_unavailable)
  have "l \<noteq> 0" and "c \<noteq> 0" using assms by auto
  note r = resolveOriginalPosition_frame [OF assms(1) assms(2) \<open>l \<noteq> 0\<close> assms(4) \<open>c \<noteq> 0\<close>, of rt w]
  from n show "snd (resolveOriginalPosition rt w (Some f))
           = Some (basename (fileName f) @ '':'' @ string_of_int l @ '':'' @ string_of_int c)"
    unfolding r
    by (cases "loadSourceMapForFile rt w (fileName f)") (simp add: compiled_position_def)
  show "CHR ''/'' \<notin> set (basename (fileName f))" by (rule basename_no_separator)
  show "\<exists>dir trail. fileName f = dir @ basename (fileName f) @ trail
               \<and> set trail \<subseteq> {CHR ''/''} \<and> (dir = [] \<or> last dir = CHR ''/'')"
    by (rule basename_decomposition)
  show "snd (addFileCommentToQuery app_runtime fresh_world (JStr ''SELECT NOW();'') JUndefined)
             = Inr (JStr ''SELECT NOW() /* file=app.js:7:3 */;'', JUndefined)"
    by (simp add: pipeline_defs scenario_defs string_eval string_of_int_def string_of_nat.simps)
qed

theorem resolveOriginalPosition_unmapped_witness:
  "fileName app_frame \<noteq> [] \<and> line app_frame = Some 7 \<and> column app_frame = Some 3
   \<and> map_unavailable app_runtime fresh_world (fileName app_frame)
   \<and> snd (resolveOriginalPosition app_runtime fresh_world (Some app_frame)) = Some ''app.js:7:3''"
proof -
  have h: "fileName app_frame \<noteq> []" "line app_frame = Some 7" "(1::int) \<le> 7"
    "column app_frame = Some 3" "(1::int) \<le> 3"
    "map_unavailable app_runtime fresh_world (fileName app_frame)"
    by (simp_all add: map_unavailable_def scenario_defs)
  have b: "basename (fileName app_frame) @ '':'' @ string_of_int 7 @ '':'' @ string_of_int 3 = ''app.js:7:3''"
    by (simp add: basename_def app_frame_def string_of_int_def string_of_nat.simps)
  from resolveOriginalPosition_unmapped [OF h] h b show ?thesis by simp
qed

text \<open>
  Claim C2, amended. For a frame with a file name, line and column at least 1, a consumer
  cached for the file, and an original position for the line and column whose source is a
  non-empty string, \<^verbatim>\<open>resolveOriginalPosition\<close> returns the original source, line and column
  joined by colons, and leaves the process state as it was.
\<close>

theorem resolveOriginalPosition_mapped:
  assumes "fileName f \<noteq> []" and "line f = Some l" and "1 \<le> l" and "column f = Some c" and "1 \<le> c"
    and "sourceMapCache w (fileName f) = Some (Some m)"
    and "originalPositionFor m l c = Some originalPos"
    and "source originalPos = Some src" and "src \<noteq> []"
  shows "resolveOriginalPosition rt w (Some f)
           = (w, Some (src @ '':'' @ template_num (orig_line originalPos)
                        @ '':'' @ template_num (orig_column originalPos)))"
proof -
  have ld: "loadSourceMapForFile rt w (fileName f) = (w, Some m)"
    using assms(6) by (rule loadSourceMapForFile_cached)
  have "l \<noteq> 0" and "c \<noteq> 0" using assms by auto
  note r = resolveOriginalPosition_frame [OF assms(1) assms(2) \<open>l \<noteq> 0\<close> assms(4) \<open>c \<noteq> 0\<close>, of rt w]
  show ?thesis unfolding r using ld assms(7,8,9) by simp
qed

theorem resolveOriginalPosition_mapped_witness:
  "sourceMapCache (world_with ts_consumer) (fileName app_frame) = Some (Some ts_consumer)
   \<and> originalPositionFor ts_consumer 7 3
       = Some \<lparr>source = Some ''app.ts'', orig_line = Some 5, orig_column = Some 10\<rparr>
   \<and> resolveOriginalPosition app_runtime (world_with ts_consumer) (Some app_frame)
       = (world_with ts_consumer, Some ''app.ts:5:10'')"
proof -
  have h: "fileName app_frame \<noteq> []" "line app_frame = Some 7" "(1::int) \<le> 7"
    "column app_frame = Some 3" "(1::int) \<le> 3"
    "sourceMapCache (world_with ts_consumer) (fileName app_frame) = Some (Some ts_consumer)"
    "originalPositionFor ts_consumer 7 3
       = Some \<lparr>source = Some ''app.ts'', orig_line = Some 5, orig_column = Some 10\<rparr>"
    "source \<lparr>source = Some ''app.ts'', orig_line = Some 5, orig_column = Some 10\<rparr> = Some ''app.ts''"
    "''app.ts'' \<noteq> []"
    by (simp_all add: scenario_defs cache_set_def)
  from resolveOriginalPosition_mapped [OF h, of app_runtime] h show ?thesis
    by (simp add: string_of_int_def string_of_nat.simps)
qed

text \<open>
  Claim C2, as stated, asks only for a source that is not \<^verbatim>\<open>null\<close>. Line 90 tests the source
  for truthiness: when the consumer answers the empty string as source, the compiled
  position is returned, not the original one.
\<close>

theorem resolveOriginalPosition_empty_source_falls_back:
  "sourceMapCache (world_with nameless_consumer) (fileName app_frame) = Some (Some nameless_consumer)
   \<and> originalPositionFor nameless_consumer 7 3
       = Some \<lparr>source = Some [], orig_line = Some 5, orig_column = Some 10\<rparr>
   \<and> snd (resolveOriginalPosition app_runtime (world_with nameless_consumer) (Some app_frame))
       = Some ''app.js:7:3''
   \<and> snd (resolveOriginalPosition app_runtime (world_with nameless_consumer) (Some app_frame))
       \<noteq> Some ('''' @ '':'' @ string_of_int 5 @ '':'' @ string_of_int 10)"
  by (simp add: resolveOriginalPosition_def loadSourceMapForFile_def compiled_position_def basename_def
      scenario_defs cache_set_def string_of_int_def string_of_nat.simps)

section \<open>Pool Interceptor\<close>

text \<open>The annotation pipeline adds only file-system and parser calls to the trace, and
  hands the values back as it got them.\<close>

lemma getCallerFrame_trace: "trace (fst (getCallerFrame rt w)) = trace w"
  by (simp add: getCallerFrame_def Let_def split: sum.splits)

lemma loadSourceMapForFile_trace:
  "\<exists>evs. trace (fst (loadSourceMapForFile rt w p)) = trace w @ evs \<and> (\<forall>e \<in> set evs. is_file_access e)"
  by (simp add: loadSourceMapForFile_def cache_set_def emit_def Let_def split: option.splits sum.splits)

lemma resolveOriginalPosition_trace:
  "\<exists>evs. trace (fst (resolveOriginalPosition rt w fr)) = trace w @ evs \<and> (\<forall>e \<in> set evs. is_file_access e)"
proof -
  have id: "\<exists>evs. trace w = trace w @ evs \<and> (\<forall>e \<in> set evs. is_file_access e)" by simp
  have "fst (resolveOriginalPosition rt w fr) = w
        \<or> (\<exists>p. fst (resolveOriginalPosition rt w fr) = fst (loadSourceMapForFile rt w p))"
  proof (cases "fst (resolveOriginalPosition rt w fr) = w")
    case True
    then show ?thesis by simp
  next
    case False
    then have "fst (resolveOriginalPosition rt w fr)
                 = fst (loadSourceMapForFile rt w (fileName (the fr)))"
      by (auto simp: resolveOriginalPosition_def split: option.splits prod.splits if_splits)
    then show ?thesis by blast
  qed
  with id loadSourceMapForFile_trace show ?thesis by metis
qed

lemma addFileCommentToQuery_trace:
  "\<exists>evs. trace (fst (addFileCommentToQuery rt w text values)) = trace w @ evs
         \<and> (\<forall>e \<in> set evs. is_file_access e)"
proof (cases "getCallerFrame rt w")
  case (Pair w1 r)
  then have t1: "trace w1 = trace w" using getCallerFrame_trace [of rt w] by simp
  show ?thesis
  proof (cases r)
    case (Inl e)
    with Pair t1 show ?thesis by (simp add: addFileCommentToQuery_def)
  next
    case (Inr fr)
    obtain w2 pos where rs: "resolveOriginalPosition rt w1 fr = (w2, pos)"
      by (cases "resolveOriginalPosition rt w1 fr")
    from resolveOriginalPosition_trace [of rt w1 fr] rs t1
    have t2: "\<exists>evs. trace w2 = trace w @ evs \<and> (\<forall>e \<in> set evs. is_file_access e)" by simp
    have "trace (fst (addFileCommentToQuery rt w text values)) = trace w2"
      using Pair Inr rs by (simp add: addFileCommentToQuery_def split: sum.splits prod.splits)
    with t2 show ?thesis by simp
  qed
qed

lemma annotate_values:
  "annotate pos h text values = Inr (h', newText, newValues) \<Longrightarrow>
     newValues = values \<and> typeof newText = typeof text"
  by (cases "text") (auto simp: annotate_def Let_def split: if_splits sum.splits bool.splits)

lemma addFileCommentToQuery_values:
  "snd (addFileCommentToQuery rt w text values) = Inr (newText, newValues) \<Longrightarrow>
     newValues = values \<and> typeof newText = typeof text"
  by (auto simp: addFileCommentToQuery_def split: prod.splits sum.splits dest: annotate_values)

lemma file_access_kinds: "is_file_access e \<Longrightarrow> \<not> is_OrigQuery e \<and> \<not> is_Callback e"
  by (cases e) simp_all

lemma forward_trace:
  "\<exists>evs. trace (fst (forward rt w text values)) =
            trace w @ evs @ (case snd (addFileCommentToQuery rt w text values) of
                               Inl e \<Rightarrow> []
                             | Inr (newText, newValues) \<Rightarrow> [OrigQuery [newText, newValues]])
         \<and> (\<forall>e \<in> set evs. is_file_access e)"
proof -
  from addFileCommentToQuery_trace [of rt w "text" "values"] obtain evs where
    e: "trace (fst (addFileCommentToQuery rt w text values)) = trace w @ evs"
       "\<forall>e \<in> set evs. is_file_access e" by blast
  have "trace (fst (forward rt w text values)) =
          trace (fst (addFileCommentToQuery rt w text values))
            @ (case snd (addFileCommentToQuery rt w text values) of
                               Inl e \<Rightarrow> []
                             | Inr (newText, newValues) \<Rightarrow> [OrigQuery [newText, newValues]])"
    by (simp add: forward_def emit_def split: prod.splits sum.splits)
  with e show ?thesis by simp
qed

lemma forward_new_events:
  "filter is_Callback (new_events w (fst (forward rt w text values))) = []
   \<and> filter is_OrigQuery (new_events w (fst (forward rt w text values)))
       = (case snd (addFileCommentToQuery rt w text values) of
            Inl e \<Rightarrow> []
          | Inr (newText, newValues) \<Rightarrow> [OrigQuery [newText, newValues]])
   \<and> length (trace w) \<le> length (trace (fst (forward rt w text values)))"
proof -
  from forward_trace [of rt w "text" "values"] obtain evs where
    e: "trace (fst (forward rt w text values)) =
            trace w @ evs @ (case snd (addFileCommentToQuery rt w text values) of
                               Inl e \<Rightarrow> []
                             | Inr (newText, newValues) \<Rightarrow> [OrigQuery [newText, newValues]])"
       "\<forall>e \<in> set evs. is_file_access e" by blast
  from e(2) have f: "filter is_Callback evs = []" "filter is_OrigQuery evs = []"
    by (auto simp: filter_empty_conv dest: file_access_kinds)
  from e(1) f show ?thesis
    by (simp add: new_events_def split: sum.splits prod.splits)
qed


lemma patchedQuery_unfold:
  "patchedQuery rt w text values0 callback0 =
     (let callback = (if typeof values0 = ''function'' then values0 else callback0);
          values = (if typeof values0 = ''function'' then JUndefined else values0);
          w2 = fst (forward rt w text values);
          promise = snd (forward rt w text values)
      in if truthy callback then
           (emit w2 (case promise of
                       Inr res \<Rightarrow> invoke callback [JNull, res]
                     | Inl err \<Rightarrow> invoke callback [err]),
            ReturnUndefined)
         else (w2, ReturnPromise promise))"
  by (simp add: patchedQuery_def Let_def split: prod.splits)

lemma typeof_function_truthy: "typeof v = ''function'' \<Longrightarrow> truthy v"
  by (cases v) simp_all

lemma new_events_emit:
  assumes "length (trace w) \<le> length (trace w2)"
  shows "new_events w (emit w2 e) = new_events w w2 @ [e]"
  using assms by (simp add: new_events_def emit_def)

text \<open>
  Claim C6. When a callback function was supplied, as second or as third argument,
  \<^verbatim>\<open>patchedQuery\<close> returns nothing and the invocation calls the callback exactly once: with
  \<^verbatim>\<open>(null, result)\<close> when the forwarded promise is fulfilled with \<open>result\<close>, with \<^verbatim>\<open>(error)\<close>
  when it is rejected with \<open>error\<close>. When no callback was supplied, the promise of the
  forwarded call is returned and no callback is called.
\<close>

theorem patchedQuery_callback_contract:
  "(let callback = (if typeof values0 = ''function'' then values0 else callback0);
        values = (if typeof values0 = ''function'' then JUndefined else values0);
        promise = snd (forward rt w text values);
        w3 = fst (patchedQuery rt w text values0 callback0);
        returned = snd (patchedQuery rt w text values0 callback0)
    in (typeof callback = ''function'' \<longrightarrow>
          returned = ReturnUndefined
          \<and> (\<forall>res. promise = Inr res \<longrightarrow>
                filter is_Callback (new_events w w3) = [Callback callback [JNull, res]])
          \<and> (\<forall>err. promise = Inl err \<longrightarrow>
                filter is_Callback (new_events w w3) = [Callback callback [err]]))
       \<and> (\<not> truthy callback \<longrightarrow>
            returned = ReturnPromise promise
            \<and> filter is_Callback (new_events w w3) = []))"
proof -
  define callback where "callback = (if typeof values0 = ''function'' then values0 else callback0)"
  define vals where "vals = (if typeof values0 = ''function'' then JUndefined else values0)"
  define w2 where "w2 = fst (forward rt w text vals)"
  define promise where "promise = snd (forward rt w text vals)"
  have pq: "patchedQuery rt w text values0 callback0 =
      (if truthy callback then
           (emit w2 (case promise of
                       Inr res \<Rightarrow> invoke callback [JNull, res]
                     | Inl err \<Rightarrow> invoke callback [err]),
            ReturnUndefined)
         else (w2, ReturnPromise promise))"
    unfolding patchedQuery_unfold callback_def vals_def w2_def promise_def Let_def
    by (rule refl)
  from forward_new_events [of w rt "text" vals]
  have fw: "filter is_Callback (new_events w w2) = []" "length (trace w) \<le> length (trace w2)"
    by (simp_all add: w2_def)
  have a: "typeof callback = ''function'' \<longrightarrow>
          snd (patchedQuery rt w text values0 callback0) = ReturnUndefined
          \<and> (\<forall>res. promise = Inr res \<longrightarrow>
                filter is_Callback (new_events w (fst (patchedQuery rt w text values0 callback0)))
                  = [Callback callback [JNull, res]])
          \<and> (\<forall>err. promise = Inl err \<longrightarrow>
                filter is_Callback (new_events w (fst (patchedQuery rt w text values0 callback0)))
                  = [Callback callback [err]])"
  proof
    assume f: "typeof callback = ''function''"
    then have t: "truthy callback" by (rule typeof_function_truthy)
    from t f fw show "snd (patchedQuery rt w text values0 callback0) = ReturnUndefined
          \<and> (\<forall>res. promise = Inr res \<longrightarrow>
                filter is_Callback (new_events w (fst (patchedQuery rt w text values0 callback0)))
                  = [Callback callback [JNull, res]])
          \<and> (\<forall>err. promise = Inl err \<longrightarrow>
                filter is_Callback (new_events w (fst (patchedQuery rt w text values0 callback0)))
                  = [Callback callback [err]])"
      by (simp add: pq new_events_emit invoke_def)
  qed
  have b: "\<not> truthy callback \<longrightarrow>
            snd (patchedQuery rt w text values0 callback0) = ReturnPromise promise
            \<and> filter is_Callback (new_events w (fst (patchedQuery rt w text values0 callback0))) = []"
    using fw by (simp add: pq)
  from a b show ?thesis
    unfolding Let_def callback_def [symmetric] vals_def [symmetric] promise_def [symmetric]
    by blast
qed


theorem patchedQuery_callback_contract_witness:
  "typeof (JFun 1) = ''function''
   \<and> snd (forward app_runtime fresh_world (JStr ''SELECT NOW();'') JUndefined)
       = Inr (JArr [JStr ''SELECT NOW() /* file=app.js:7:3 */;''])
   \<and> snd (patchedQuery app_runtime fresh_world (JStr ''SELECT NOW();'') (JFun 1) JUndefined)
       = ReturnUndefined
   \<and> filter is_Callback (new_events fresh_world
         (fst (patchedQuery app_runtime fresh_world (JStr ''SELECT NOW();'') (JFun 1) JUndefined)))
       = [Callback (JFun 1) [JNull, JArr [JStr ''SELECT NOW() /* file=app.js:7:3 */;'']]]
   \<and> snd (forward refusing_runtime fresh_world (JStr ''SELECT NOW();'') (JArr []))
       = Inl (JError ''ECONNREFUSED'')
   \<and> filter is_Callback (new_events fresh_world
         (fst (patchedQuery refusing_runtime fresh_world (JStr ''SELECT NOW();'') (JArr []) (JFun 2))))
       = [Callback (JFun 2) [JError ''ECONNREFUSED'']]
   \<and> \<not> truthy JUndefined
   \<and> snd (patchedQuery app_runtime fresh_world (JStr ''SELECT NOW();'') (JArr []) JUndefined)
       = ReturnPromise (Inr (JArr [JStr ''SELECT NOW() /* file=app.js:7:3 */;'']))"
proof -
  have p1: "snd (forward app_runtime fresh_world (JStr ''SELECT NOW();'') JUndefined)
       = Inr (JArr [JStr ''SELECT NOW() /* file=app.js:7:3 */;''])"
    by (simp add: pipeline_defs scenario_defs string_eval string_of_int_def string_of_nat.simps)
  have p2: "snd (forward refusing_runtime fresh_world (JStr ''SELECT NOW();'') (JArr []))
       = Inl (JError ''ECONNREFUSED'')"
    by (simp add: pipeline_defs scenario_defs string_eval string_of_int_def string_of_nat.simps)
  have p3: "snd (forward app_runtime fresh_world (JStr ''SELECT NOW();'') (JArr []))
       = Inr (JArr [JStr ''SELECT NOW() /* file=app.js:7:3 */;''])"
    by (simp add: pipeline_defs scenario_defs string_eval string_of_int_def string_of_nat.simps)
  from patchedQuery_callback_contract
         [of "JFun 1" JUndefined app_runtime fresh_world "JStr ''SELECT NOW();''"] p1
  have a: "snd (patchedQuery app_runtime fresh_world (JStr ''SELECT NOW();'') (JFun 1) JUndefined)
       = ReturnUndefined
   \<and> filter is_Callback (new_events fresh_world
         (fst (patchedQuery app_runtime fresh_world (JStr ''SELECT NOW();'') (JFun 1) JUndefined)))
       = [Callback (JFun 1) [JNull, JArr [JStr ''SELECT NOW() /* file=app.js:7:3 */;'']]]"
    by (simp add: Let_def)
  from patchedQuery_callback_contract
         [of "JArr []" "JFun 2" refusing_runtime fresh_world "JStr ''SELECT NOW();''"] p2
  have b: "filter is_Callback (new_events fresh_world
         (fst (patchedQuery refusing_runtime fresh_world (JStr ''SELECT NOW();'') (JArr []) (JFun 2))))
       = [Callback (JFun 2) [JError ''ECONNREFUSED'']]"
    by (simp add: Let_def)
  from patchedQuery_callback_contract
         [of "JArr []" JUndefined app_runtime fresh_world "JStr ''SELECT NOW();''"] p3
  have c: "snd (patchedQuery app_runtime fresh_world (JStr ''SELECT NOW();'') (JArr []) JUndefined)
       = ReturnPromise (Inr (JArr [JStr ''SELECT NOW() /* file=app.js:7:3 */;'']))"
    by (simp add: Let_def)
  from p1 p2 a b c show ?thesis by simp
qed

text \<open>What one invocation forwards: when the annotation succeeds, one call of the wrapped
  \<^verbatim>\<open>query\<close> with the annotated query and the values, which are the caller's values, or
  \<^verbatim>\<open>undefined\<close> when the second argument was a function, and never a function; when the
  annotation throws, no call. When the second argument is a function it is the callback,
  and a different function passed third is never called.\<close>

lemma patchedQuery_forwarded_arguments:
  "(let callback = (if typeof values0 = ''function'' then values0 else callback0);
        values = (if typeof values0 = ''function'' then JUndefined else values0);
        annotated = snd (addFileCommentToQuery rt w text values);
        w3 = fst (patchedQuery rt w text values0 callback0)
    in (\<forall>newText newValues. annotated = Inr (newText, newValues) \<longrightarrow>
          filter is_OrigQuery (new_events w w3) = [OrigQuery [newText, values]]
          \<and> newValues = values \<and> typeof newText = typeof text)
       \<and> (\<forall>e. annotated = Inl e \<longrightarrow> filter is_OrigQuery (new_events w w3) = [])
       \<and> typeof values \<noteq> ''function''
       \<and> (typeof values0 = ''function'' \<longrightarrow>
            values = JUndefined \<and> callback = values0
            \<and> (callback0 \<noteq> values0 \<longrightarrow>
                 (\<forall>args. Callback callback0 args \<notin> set (new_events w w3)))))"
proof -
  define callback where "callback = (if typeof values0 = ''function'' then values0 else callback0)"
  define vals where "vals = (if typeof values0 = ''function'' then JUndefined else values0)"
  define w2 where "w2 = fst (forward rt w text vals)"
  define promise where "promise = snd (forward rt w text vals)"
  define annotated where "annotated = snd (addFileCommentToQuery rt w text vals)"
  define w3 where "w3 = fst (patchedQuery rt w text values0 callback0)"
  define ev where "ev = (case promise of
                       Inr res \<Rightarrow> invoke callback [JNull, res]
                     | Inl err \<Rightarrow> invoke callback [err])"
  have pq: "patchedQuery rt w text values0 callback0 =
      (if truthy callback then (emit w2 ev, ReturnUndefined) else (w2, ReturnPromise promise))"
    unfolding patchedQuery_unfold callback_def vals_def w2_def promise_def ev_def Let_def
    by (rule refl)
  from forward_new_events [of w rt "text" vals]
  have fw: "filter is_Callback (new_events w w2) = []"
    "filter is_OrigQuery (new_events w w2)
       = (case annotated of Inl e \<Rightarrow> [] | Inr (newText, newValues) \<Rightarrow> [OrigQuery [newText, newValues]])"
    "length (trace w) \<le> length (trace w2)"
    by (simp_all add: w2_def annotated_def)
  have ev_kind: "\<not> is_OrigQuery ev"
    by (simp add: ev_def invoke_def split: sum.splits)
  have ev_callee: "\<And>f args. ev = Callback f args \<Longrightarrow> f = callback"
    by (auto simp: ev_def invoke_def split: sum.splits if_splits)
  have w3_events: "new_events w w3 = new_events w w2 @ (if truthy callback then [ev] else [])"
    using fw(3) by (simp add: w3_def pq new_events_emit)
  have oq: "filter is_OrigQuery (new_events w w3)
       = (case annotated of Inl e \<Rightarrow> [] | Inr (newText, newValues) \<Rightarrow> [OrigQuery [newText, newValues]])"
    using fw(2) ev_kind by (simp add: w3_events)
  have c1: "\<forall>newText newValues. annotated = Inr (newText, newValues) \<longrightarrow>
          filter is_OrigQuery (new_events w w3) = [OrigQuery [newText, vals]]
          \<and> newValues = vals \<and> typeof newText = typeof text"
  proof (intro allI impI)
    fix newText newValues assume a: "annotated = Inr (newText, newValues)"
    then have "newValues = vals \<and> typeof newText = typeof text"
      unfolding annotated_def by (rule addFileCommentToQuery_values)
    with a oq show "filter is_OrigQuery (new_events w w3) = [OrigQuery [newText, vals]]
          \<and> newValues = vals \<and> typeof newText = typeof text"
      by simp
  qed
  have c2: "\<forall>e. annotated = Inl e \<longrightarrow> filter is_OrigQuery (new_events w w3) = []"
    using oq by simp
  have c3: "typeof vals \<noteq> ''function''" by (simp add: vals_def)
  have c4: "typeof values0 = ''function'' \<longrightarrow>
            vals = JUndefined \<and> callback = values0
            \<and> (callback0 \<noteq> values0 \<longrightarrow> (\<forall>args. Callback callback0 args \<notin> set (new_events w w3)))"
  proof (intro impI conjI allI)
    assume f: "typeof values0 = ''function''"
    then show "vals = JUndefined" "callback = values0" by (simp_all add: vals_def callback_def)
    fix args assume ne: "callback0 \<noteq> values0"
    show "Callback callback0 args \<notin> set (new_events w w3)"
    proof
      assume m: "Callback callback0 args \<in> set (new_events w w3)"
      have "Callback callback0 args \<notin> set (new_events w w2)"
      proof
        assume "Callback callback0 args \<in> set (new_events w w2)"
        then have "Callback callback0 args \<in> set (filter is_Callback (new_events w w2))" by simp
        with fw(1) show False by simp
      qed
      with m have "ev = Callback callback0 args"
        by (simp add: w3_events split: if_splits)
      then have "callback0 = callback" by (rule ev_callee)
      with f ne show False by (simp add: callback_def)
    qed
  qed
  from c1 c2 c3 c4 show ?thesis
    unfolding Let_def callback_def [symmetric] vals_def [symmetric] annotated_def [symmetric]
      w3_def [symmetric]
    by blast
qed


text \<open>
  Claim C10. Every invocation of \<^verbatim>\<open>patchedQuery\<close> should call the wrapped \<^verbatim>\<open>query\<close>, with
  exactly two arguments, the annotated query and the values. The call is made inside the
  \<^verbatim>\<open>then\<close> of the annotation only: for the payload \<^verbatim>\<open>null\<close> the annotation throws, the
  callback receives the \<^verbatim>\<open>TypeError\<close> and the wrapped \<^verbatim>\<open>query\<close> is not called at all; the same
  happens to a well-formed query when the stack capture throws.
\<close>

theorem patchedQuery_failed_annotation_never_forwards:
  "new_events fresh_world (fst (patchedQuery app_runtime fresh_world JNull (JArr []) (JFun 1)))
     = [ExistsSync ''/srv/app.js.map'', Callback (JFun 1) [TypeError]]
   \<and> filter is_OrigQuery
        (new_events fresh_world
           (fst (patchedQuery app_runtime fresh_world JNull (JArr []) (JFun 1)))) = []
   \<and> snd (patchedQuery exhausted_runtime fresh_world (JStr ''SELECT NOW();'') JUndefined JUndefined)
       = ReturnPromise (Inl (JError ''RangeError''))
   \<and> filter is_OrigQuery
        (new_events fresh_world
           (fst (patchedQuery exhausted_runtime fresh_world
                   (JStr ''SELECT NOW();'') JUndefined JUndefined))) = []"
  by (simp add: pipeline_defs scenario_defs string_eval new_events_def)

end
